theory Spec2Isabelle
  imports Main "HOL-Library.AList"
begin

section \<open>Python values and exceptions\<close>

text \<open>
  The evaluation engine is Python. Exceptions are values of the type \<open>error\<close>, one
  constructor per exception class that the modelled code raises or lets through, each
  carrying the message. A fallible computation returns \<open>error + 'a\<close> with \<open>Inl\<close> for a
  raised exception. All constructors stand for subclasses of Python's \<open>Exception\<close>, which
  is what the \<open>except Exception\<close> clauses of the source catch.

  Strings are byte lists. The braces the extractor looks for are ASCII, and no byte of a
  multi-byte UTF-8 sequence equals an ASCII byte, so scanning bytes finds the same braces
  as scanning code points.
\<close>

datatype error =
    ValueError string
  | JSONDecodeError string
  | IndexError string
  | KeyError string
  | TypeError string
  | AttributeError string
  | FileNotFoundError string
  | OSError string
  | RuntimeError string

datatype pyval =
    PNone
  | PBool bool
  | PInt int
  | PFloat string
  | PStr string
  | PList "pyval list"
  | PDict "(string \<times> pyval) list"

section \<open>JSON extraction (\<open>EvaluatorBase._extract_json\<close>)\<close>

text \<open>
  \<open>re.search(r'({.*)', text, re.DOTALL)\<close>: the leftmost match starts at the first
  \<open>{\<close>, and with \<open>DOTALL\<close> the greedy \<open>.*\<close> runs to the end of the text. Group 1 is
  the text from the first \<open>{\<close> on; there is no match when the text has no \<open>{\<close>.
\<close>

definition re_search_brace :: "string \<Rightarrow> string option" where
  "re_search_brace text =
     (case dropWhile (\<lambda>c. c \<noteq> CHR ''{'') text of [] \<Rightarrow> None | c # cs \<Rightarrow> Some (c # cs))"

text \<open>
  The loop \<open>for i, c in enumerate(json_part)\<close> with its stack of indices: \<open>stack\<close> is the
  list of pushed indices, \<open>i\<close> the index of the next character, \<open>json_part\<close> the whole
  group and the last argument what is left to enumerate. \<open>stack.pop()\<close> on an empty list
  raises \<open>IndexError\<close>; falling out of the loop raises the \<open>ValueError\<close> of the last line.
\<close>

fun scan_braces :: "nat list \<Rightarrow> nat \<Rightarrow> string \<Rightarrow> string \<Rightarrow> error + string" where
  "scan_braces stack i json_part [] =
     Inl (ValueError ''Could not extract complete JSON object'')"
| "scan_braces stack i json_part (c # cs) =
     (if c = CHR ''{'' then scan_braces (stack @ [i]) (Suc i) json_part cs
      else if c = CHR ''}'' then
        (case stack of
           [] \<Rightarrow> Inl (IndexError ''pop from empty list'')
         | _ # _ \<Rightarrow>
             if butlast stack = [] then Inr (take (Suc i) json_part)
             else scan_braces (butlast stack) (Suc i) json_part cs)
      else scan_braces stack (Suc i) json_part cs)"

definition extract_json :: "string \<Rightarrow> error + string" where
  "extract_json text =
     (case re_search_brace text of
        None \<Rightarrow> Inl (ValueError ''No JSON object found in text'')
      | Some json_part \<Rightarrow> scan_braces [] 0 json_part json_part)"

text \<open>
  The extraction algorithm in the words of the specification: locate the first \<open>{\<close>; from
  there keep a depth counter, incremented on \<open>{\<close> and decremented on \<open>}\<close>; the moment
  the counter returns to zero, the text from the first \<open>{\<close> through that \<open>}\<close> is the
  candidate. \<open>seen\<close> is the text scanned so far.
\<close>

fun depth_scan :: "int \<Rightarrow> string \<Rightarrow> string \<Rightarrow> string option" where
  "depth_scan d seen [] = None"
| "depth_scan d seen (c # cs) =
     (if c = CHR ''{'' then depth_scan (d + 1) (seen @ [c]) cs
      else if c = CHR ''}'' then
        (if d - 1 = 0 then Some (seen @ [c]) else depth_scan (d - 1) (seen @ [c]) cs)
      else depth_scan d (seen @ [c]) cs)"

definition extract_by_depth :: "string \<Rightarrow> error + string" where
  "extract_by_depth text =
     (case dropWhile (\<lambda>c. c \<noteq> CHR ''{'') text of
        [] \<Rightarrow> Inl (ValueError ''No JSON object found in text'')
      | c # cs \<Rightarrow>
          (case depth_scan 0 [] (c # cs) of
             None \<Rightarrow> Inl (ValueError ''Could not extract complete JSON object'')
           | Some cand \<Rightarrow> Inr cand))"


section \<open>The JSON parser (\<open>json.loads\<close>)\<close>

text \<open>
  \<open>json.loads\<close> belongs to Python's standard library, not to the repository. The
  evaluator takes it from the \<open>world\<close> record below, so the general theorems hold for any
  parser. \<open>json_loads\<close> is a model of the library's decoder that concrete runs use: JSON
  texts of objects, arrays, strings with the one-character escapes, numbers, \<open>true\<close>,
  \<open>false\<close>, \<open>null\<close> and the constants \<open>NaN\<close>, \<open>Infinity\<close>, \<open>-Infinity\<close> that Python
  accepts. A float is kept as its literal. Two things are outside the model: \<open>\u\<close>
  escapes in strings (rejected here, accepted by Python) and the text of the error
  message. Every failure is a \<open>JSONDecodeError\<close>, as in Python. A repeated key keeps its
  first position and its last value, as \<open>dict(pairs)\<close> does. The first argument of the
  parsing functions is fuel; \<open>json_loads\<close> supplies more than the length of the text, and
  every recursive call comes after at least one consumed character.
\<close>

definition is_ws :: "char \<Rightarrow> bool" where
  "is_ws c = (c = CHR '' '' \<or> c = CHR 0x09 \<or> c = CHR 0x0A \<or> c = CHR 0x0D)"

definition skip_ws :: "string \<Rightarrow> string" where
  "skip_ws s = dropWhile is_ws s"

definition is_digit :: "char \<Rightarrow> bool" where
  "is_digit c = (c \<in> set ''0123456789'')"

definition digit_val :: "char \<Rightarrow> int" where
  "digit_val c = int (of_char c) - 48"

definition int_of_digits :: "string \<Rightarrow> int" where
  "int_of_digits ds = foldl (\<lambda>a d. 10 * a + digit_val d) 0 ds"

definition unescape :: "char \<Rightarrow> char option" where
  "unescape e =
     (if e = CHR 0x22 then Some (CHR 0x22)
      else if e = CHR 0x5C then Some (CHR 0x5C)
      else if e = CHR ''/'' then Some (CHR ''/'')
      else if e = CHR ''b'' then Some (CHR 0x08)
      else if e = CHR ''f'' then Some (CHR 0x0C)
      else if e = CHR ''n'' then Some (CHR 0x0A)
      else if e = CHR ''r'' then Some (CHR 0x0D)
      else if e = CHR ''t'' then Some (CHR 0x09)
      else None)"

text \<open>\<open>scanstring acc s\<close> reads a string body up to its closing quote (strict mode).\<close>

fun scanstring :: "string \<Rightarrow> string \<Rightarrow> (string \<times> string) option" where
  "scanstring acc [] = None"
| "scanstring acc [c] = (if c = CHR 0x22 then Some (acc, []) else None)"
| "scanstring acc (c # e # cs) =
     (if c = CHR 0x22 then Some (acc, e # cs)
      else if c = CHR 0x5C then
        (case unescape e of None \<Rightarrow> None | Some ch \<Rightarrow> scanstring (acc @ [ch]) cs)
      else if (of_char c :: nat) < 32 then None
      else scanstring (acc @ [c]) (e # cs))"

text \<open>
  The number pattern \<open>(-?(?:0|[1-9][0-9]*))(\.[0-9]+)?([eE][-+]?[0-9]+)?\<close>: the integer
  part, then a fraction and an exponent where they match. Without both the value is an
  \<open>int\<close>.
\<close>

definition scan_frac :: "string \<Rightarrow> string \<times> string" where
  "scan_frac s =
     (case s of
        [] \<Rightarrow> ([], s)
      | c # r \<Rightarrow>
          if c = CHR ''.'' \<and> takeWhile is_digit r \<noteq> []
          then (c # takeWhile is_digit r, dropWhile is_digit r) else ([], s))"

definition scan_exp :: "string \<Rightarrow> string \<times> string" where
  "scan_exp s =
     (case s of
        [] \<Rightarrow> ([], s)
      | c # r \<Rightarrow>
          if c = CHR ''e'' \<or> c = CHR ''E'' then
            (let (sg, r') = (case r of [] \<Rightarrow> ([], r)
                             | d # r'' \<Rightarrow> if d = CHR ''-'' \<or> d = CHR ''+'' then ([d], r'') else ([], r))
             in if takeWhile is_digit r' \<noteq> []
                then (c # sg @ takeWhile is_digit r', dropWhile is_digit r') else ([], s))
          else ([], s))"

definition scan_number :: "string \<Rightarrow> (pyval \<times> string) option" where
  "scan_number s =
     (let (sg, s1) = (case s of [] \<Rightarrow> ([], s)
                      | c # r \<Rightarrow> if c = CHR ''-'' then ([c], r) else ([], s));
          ds = takeWhile is_digit s1
      in if ds = [] then None
         else
           (let ipart = (if hd ds = CHR ''0'' then [hd ds] else ds);
                (frac, s3) = scan_frac (drop (length ipart) s1);
                (ex, s4) = scan_exp s3
            in if frac = [] \<and> ex = []
               then Some (PInt ((if sg = [] then 1 else - 1) * int_of_digits ipart), s4)
               else Some (PFloat (sg @ ipart @ frac @ ex), s4)))"

definition scan_constant :: "string \<Rightarrow> (pyval \<times> string) option" where
  "scan_constant s =
     (if take 4 s = ''null'' then Some (PNone, drop 4 s)
      else if take 4 s = ''true'' then Some (PBool True, drop 4 s)
      else if take 5 s = ''false'' then Some (PBool False, drop 5 s)
      else (case scan_number s of
              Some r \<Rightarrow> Some r
            | None \<Rightarrow>
                if take 3 s = ''NaN'' then Some (PFloat ''NaN'', drop 3 s)
                else if take 8 s = ''Infinity'' then Some (PFloat ''Infinity'', drop 8 s)
                else if take 9 s = ''-Infinity'' then Some (PFloat ''-Infinity'', drop 9 s)
                else None))"

fun parse_value :: "nat \<Rightarrow> string \<Rightarrow> (pyval \<times> string) option"
  and parse_members :: "nat \<Rightarrow> (string \<times> pyval) list \<Rightarrow> string \<Rightarrow> (pyval \<times> string) option"
  and parse_elements :: "nat \<Rightarrow> pyval list \<Rightarrow> string \<Rightarrow> (pyval \<times> string) option"
where
  "parse_value 0 s = None"
| "parse_value (Suc n) [] = None"
| "parse_value (Suc n) (c # cs) =
     (if c = CHR 0x22 then
        (case scanstring [] cs of None \<Rightarrow> None | Some (str, r) \<Rightarrow> Some (PStr str, r))
      else if c = CHR ''{'' then
        (case skip_ws cs of
           [] \<Rightarrow> None
         | d # r \<Rightarrow> if d = CHR ''}'' then Some (PDict [], r) else parse_members n [] (d # r))
      else if c = CHR ''['' then
        (case skip_ws cs of
           [] \<Rightarrow> None
         | d # r \<Rightarrow> if d = CHR '']'' then Some (PList [], r) else parse_elements n [] (d # r))
      else scan_constant (c # cs))"
| "parse_members 0 acc s = None"
| "parse_members (Suc n) acc [] = None"
| "parse_members (Suc n) acc (c # cs) =
     (if c \<noteq> CHR 0x22 then None
      else
        (case scanstring [] cs of
           None \<Rightarrow> None
         | Some (key, r1) \<Rightarrow>
             (case skip_ws r1 of
                [] \<Rightarrow> None
              | d # r2 \<Rightarrow>
                  if d \<noteq> CHR '':'' then None
                  else
                    (case parse_value n (skip_ws r2) of
                       None \<Rightarrow> None
                     | Some (v, r3) \<Rightarrow>
                         (case skip_ws r3 of
                            [] \<Rightarrow> None
                          | e # r4 \<Rightarrow>
                              if e = CHR ''}'' then Some (PDict (AList.update key v acc), r4)
                              else if e = CHR '','' then
                                parse_members n (AList.update key v acc) (skip_ws r4)
                              else None)))))"
| "parse_elements 0 acc s = None"
| "parse_elements (Suc n) acc s =
     (case parse_value n s of
        None \<Rightarrow> None
      | Some (v, r1) \<Rightarrow>
          (case skip_ws r1 of
             [] \<Rightarrow> None
           | e # r2 \<Rightarrow>
               if e = CHR '']'' then Some (PList (acc @ [v]), r2)
               else if e = CHR '','' then parse_elements n (acc @ [v]) (skip_ws r2)
               else None))"

definition json_loads :: "string \<Rightarrow> error + pyval" where
  "json_loads s =
     (case parse_value (Suc (length s)) (skip_ws s) of
        None \<Rightarrow> Inl (JSONDecodeError ''invalid JSON text'')
      | Some (v, rest) \<Rightarrow>
          if skip_ws rest = [] then Inr v else Inl (JSONDecodeError ''invalid JSON text''))"


section \<open>The world outside the program\<close>

text \<open>
  What the code reads from its environment: \<open>read_file path\<close> is
  \<open>open(path, 'rb')\<close> followed by \<open>read()\<close>, failing with \<open>FileNotFoundError\<close> for an
  absent file and with other errors otherwise; \<open>path_exists\<close> is \<open>os.path.exists\<close>;
  \<open>b64encode\<close> is \<open>base64.b64encode(...).decode('utf-8')\<close>; \<open>loads\<close> is \<open>json.loads\<close>;
  \<open>now\<close> is \<open>datetime.now().isoformat()\<close> at the one place that reads the clock.
  Calls to \<open>Logger\<close> change nothing that the program returns and are left out.
\<close>

record world =
  read_file :: "pyval \<Rightarrow> error + string"
  path_exists :: "string \<Rightarrow> bool"
  b64encode :: "string \<Rightarrow> string"
  loads :: "string \<Rightarrow> error + pyval"
  now :: string

section \<open>The language-model client (\<open>LLMClient\<close>)\<close>

text \<open>
  The client's transport is outside the program. \<open>invoke\<close> takes the client's own state
  (of any type \<open>'b\<close>: a call counter, a script of answers) and the conversation, and
  returns the completion text or the exception, with the client's next state.
\<close>

record 'b llm_client =
  model_name :: string
  invoke :: "'b \<Rightarrow> pyval list \<Rightarrow> (error + string) \<times> 'b"
  client_state :: 'b

section \<open>The conversational persona (\<open>ActivePersona\<close>)\<close>

text \<open>
  An attribute that \<open>__init__\<close> does not assign is absent from the object, and reading
  it raises \<open>AttributeError\<close>: \<open>whisper_transcriber\<close> is an optional field for that
  reason. A transcriber maps the path to the transcription or to its exception.
\<close>

record 'b active_persona =
  name :: string
  llm_client :: "'b llm_client"
  system_prompt :: pyval
  message_history :: "pyval list"
  whisper_transcriber :: "(pyval \<Rightarrow> error + string) option"

definition reset_history :: "'b active_persona \<Rightarrow> 'b active_persona" where
  "reset_history p =
     p\<lparr>message_history :=
         [PDict [(''role'', PStr ''system''), (''content'', system_prompt p)]]\<rparr>"

definition init_persona :: "string \<Rightarrow> 'b llm_client \<Rightarrow> pyval \<Rightarrow> 'b active_persona" where
  "init_persona nm client prompt =
     reset_history
       \<lparr>name = nm, llm_client = client, system_prompt = prompt,
        message_history = [], whisper_transcriber = None\<rparr>"

text \<open>
  One round of the loop over \<open>messages\<close>: \<open>Inr (Some part)\<close> when a part is appended to
  \<open>processed_messages\<close>, \<open>Inr None\<close> when no branch of the \<open>if\<close>/\<open>elif\<close> chain matches and
  nothing is appended, \<open>Inl e\<close> when the round raises. \<open>message["path"]\<close> raises
  \<open>KeyError\<close> for a dictionary without that key, before the \<open>try\<close>.
\<close>

definition process_message ::
  "world \<Rightarrow> 'b active_persona \<Rightarrow> pyval \<Rightarrow> error + pyval option" where
  "process_message w p message =
     (case message of
        PStr s \<Rightarrow> Inr (Some (PDict [(''type'', PStr ''text''), (''text'', PStr s)]))
      | PDict d \<Rightarrow>
          if map_of d ''type'' = Some (PStr ''text'') then Inr (Some (PDict d))
          else if map_of d ''type'' = Some (PStr ''image'') then
            (case map_of d ''path'' of
               None \<Rightarrow> Inl (KeyError ''path'')
             | Some image_path \<Rightarrow>
                 (case read_file w image_path of
                    Inl e \<Rightarrow> Inl e
                  | Inr img \<Rightarrow>
                      Inr (Some (PDict
                        [(''type'', PStr ''image_url''),
                         (''image_url'',
                            PDict [(''url'',
                              PStr (''data:image/jpeg;base64,'' @ b64encode w img))])]))))
          else if map_of d ''type'' = Some (PStr ''audio'') then
            (case map_of d ''path'' of
               None \<Rightarrow> Inl (KeyError ''path'')
             | Some audio_path \<Rightarrow>
                 (case whisper_transcriber p of
                    None \<Rightarrow>
                      Inl (AttributeError
                        ''ActivePersona object has no attribute whisper_transcriber'')
                  | Some transcriber \<Rightarrow>
                      (case transcriber audio_path of
                         Inl e \<Rightarrow> Inl e
                       | Inr transcription \<Rightarrow>
                           Inr (Some (PDict
                             [(''type'', PStr ''text''), (''text'', PStr transcription)])))))
          else Inr None
      | _ \<Rightarrow> Inr None)"

fun process_messages ::
  "world \<Rightarrow> 'b active_persona \<Rightarrow> pyval list \<Rightarrow> pyval list \<Rightarrow> error + pyval list" where
  "process_messages w p [] processed_messages = Inr processed_messages"
| "process_messages w p (message # messages) processed_messages =
     (case process_message w p message of
        Inl e \<Rightarrow> Inl e
      | Inr None \<Rightarrow> process_messages w p messages processed_messages
      | Inr (Some part) \<Rightarrow> process_messages w p messages (processed_messages @ [part]))"

definition user_msg :: "pyval list \<Rightarrow> pyval" where
  "user_msg processed_messages =
     PDict [(''role'', PStr ''user''), (''content'', PList processed_messages)]"

definition assistant_msg :: "string \<Rightarrow> pyval" where
  "assistant_msg response = PDict [(''role'', PStr ''assistant''), (''content'', PStr response)]"

text \<open>
  \<open>interact\<close> returns the response or the exception, and the persona as the call leaves
  it. A failure while the parts are processed leaves the persona as it was; the user turn
  is appended before the client is invoked and stays when the client fails.
\<close>

definition interact ::
  "world \<Rightarrow> 'b active_persona \<Rightarrow> pyval \<Rightarrow> (error + string) \<times> 'b active_persona" where
  "interact w p messages =
     (let msgs = (case messages of PList ms \<Rightarrow> ms | _ \<Rightarrow> [messages]) in
      case process_messages w p msgs [] of
        Inl e \<Rightarrow> (Inl e, p)
      | Inr processed_messages \<Rightarrow>
          (let history = message_history p @ [user_msg processed_messages];
               client = llm_client p
           in case invoke client (client_state client) history of
                (Inl e, st) \<Rightarrow>
                  (Inl e, p\<lparr>llm_client := client\<lparr>client_state := st\<rparr>,
                            message_history := history\<rparr>)
              | (Inr response, st) \<Rightarrow>
                  (Inr response,
                   p\<lparr>llm_client := client\<lparr>client_state := st\<rparr>,
                     message_history := history @ [assistant_msg response]\<rparr>)))"

section \<open>The evaluation runner (\<open>EvaluatorBase\<close>)\<close>

text \<open>
  \<open>preprocess_entry\<close> is the method \<open>_preprocess_entry\<close>, which a subclass may override;
  the base class returns the entry unchanged, and no class of the repository overrides it.
\<close>

record evaluator =
  evaluation_prompt :: string
  auto_reset :: bool
  images_paths :: "string list"
  preprocess_entry :: "(string \<times> pyval) list \<Rightarrow> error + (string \<times> pyval) list"

definition evaluator_base :: "string \<Rightarrow> bool \<Rightarrow> evaluator" where
  "evaluator_base prompt reset =
     \<lparr>evaluation_prompt = prompt, auto_reset = reset, images_paths = [],
      preprocess_entry = (\<lambda>entry. Inr entry)\<rparr>"

definition set_images :: "evaluator \<Rightarrow> string list \<Rightarrow> evaluator" where
  "set_images ev paths = ev\<lparr>images_paths := paths\<rparr>"

definition prepare_evaluation_messages :: "world \<Rightarrow> evaluator \<Rightarrow> pyval list" where
  "prepare_evaluation_messages w ev =
     PDict [(''type'', PStr ''text''), (''text'', PStr (evaluation_prompt ev))]
     # map (\<lambda>image_path. PDict [(''type'', PStr ''image''), (''path'', PStr image_path)])
         (filter (path_exists w) (images_paths ev))"

text \<open>\<open>d.update(other)\<close> for dictionaries: a key of \<open>d\<close> keeps its place and takes the new
  value, a new key goes to the end.\<close>

definition dict_update ::
  "(string \<times> pyval) list \<Rightarrow> (string \<times> pyval) list \<Rightarrow> (string \<times> pyval) list" where
  "dict_update d other = foldl (\<lambda>acc (k, v). AList.update k v acc) d other"

definition entry_template :: "world \<Rightarrow> 'b active_persona \<Rightarrow> (string \<times> pyval) list" where
  "entry_template w p =
     [(''timestamp'', PStr (now w)),
      (''persona_name'', PStr (name p)),
      (''model'', PStr (model_name (llm_client p)))]"

text \<open>
  \<open>reset_if_auto\<close> is the first statement of an iteration,
  \<open>if self.auto_reset: active_persona.reset_history()\<close>: its result is the persona that
  \<open>interact\<close> receives.

  \<open>trial\<close> is the body of the \<open>try\<close> of one iteration: the new entry or the exception that the
  \<open>except Exception\<close> clause catches, and the persona after it. The candidate that
  \<open>_extract_json\<close> returns starts with \<open>{\<close>, for which \<open>json.loads\<close> returns a dictionary
  or raises; the branch for another value is there for a parser that is not
  \<open>json.loads\<close>.
\<close>

definition reset_if_auto :: "evaluator \<Rightarrow> 'b active_persona \<Rightarrow> 'b active_persona" where
  "reset_if_auto ev p = (if auto_reset ev then reset_history p else p)"

definition trial ::
  "evaluator \<Rightarrow> world \<Rightarrow> (string \<times> pyval) list \<Rightarrow> pyval list \<Rightarrow> 'b active_persona
     \<Rightarrow> (error + (string \<times> pyval) list) \<times> 'b active_persona" where
  "trial ev w template messages p =
     (case interact w (reset_if_auto ev p) (PList messages) of
        (Inl e, p') \<Rightarrow> (Inl e, p')
      | (Inr response, p') \<Rightarrow>
          (case extract_json response of
             Inl e \<Rightarrow> (Inl e, p')
           | Inr candidate \<Rightarrow>
               (case loads w candidate of
                  Inl e \<Rightarrow> (Inl e, p')
                | Inr (PDict response_json) \<Rightarrow>
                    (case preprocess_entry ev response_json of
                       Inl e \<Rightarrow> (Inl e, p')
                     | Inr processed_entry \<Rightarrow>
                         (Inr (dict_update template processed_entry), p'))
                | Inr _ \<Rightarrow> (Inl (TypeError ''entry is not a dictionary''), p'))))"

text \<open>The loop \<open>for iteration in range(1, iterations + 1)\<close>; the first argument counts the
  iterations still to run.\<close>

fun evaluate_loop ::
  "nat \<Rightarrow> evaluator \<Rightarrow> world \<Rightarrow> (string \<times> pyval) list \<Rightarrow> pyval list \<Rightarrow> 'b active_persona
     \<Rightarrow> (string \<times> pyval) list list \<Rightarrow> (string \<times> pyval) list list \<times> 'b active_persona" where
  "evaluate_loop 0 ev w template messages p evaluation_results = (evaluation_results, p)"
| "evaluate_loop (Suc n) ev w template messages p evaluation_results =
     (case trial ev w template messages p of
        (Inr entry, p') \<Rightarrow>
          evaluate_loop n ev w template messages p' (evaluation_results @ [entry])
      | (Inl e, p') \<Rightarrow> evaluate_loop n ev w template messages p' evaluation_results)"

definition evaluate ::
  "evaluator \<Rightarrow> world \<Rightarrow> 'b active_persona \<Rightarrow> int
     \<Rightarrow> (string \<times> pyval) list list \<times> 'b active_persona" where
  "evaluate ev w active_persona iterations =
     (let iterations = (if iterations < 1 then 1 else iterations);
          messages = prepare_evaluation_messages w ev;
          template = entry_template w active_persona
      in evaluate_loop (nat iterations) ev w template messages active_persona [])"


text \<open>
  \<open>persona_at k\<close> is the persona as iteration \<open>k + 1\<close> of the loop finds it: the one
  passed to \<open>evaluate\<close> for the first iteration, then the one that the previous
  iteration left, whether it failed or not. \<open>trial_records\<close> is what an iteration adds to
  \<open>evaluation_results\<close>.
\<close>

fun persona_at ::
  "nat \<Rightarrow> evaluator \<Rightarrow> world \<Rightarrow> (string \<times> pyval) list \<Rightarrow> pyval list \<Rightarrow> 'b active_persona
     \<Rightarrow> 'b active_persona" where
  "persona_at 0 ev w template messages p = p"
| "persona_at (Suc k) ev w template messages p =
     snd (trial ev w template messages (persona_at k ev w template messages p))"

definition trial_records ::
  "error + (string \<times> pyval) list \<Rightarrow> (string \<times> pyval) list list" where
  "trial_records outcome = (case outcome of Inl e \<Rightarrow> [] | Inr entry \<Rightarrow> [entry])"

section \<open>Parts that the persona recognises\<close>

text \<open>
  The elements that a branch of the loop in \<open>interact\<close> handles: a string, or a
  dictionary whose \<open>type\<close> is \<open>text\<close>, \<open>image\<close> or \<open>audio\<close>.
\<close>

definition recognised_part :: "pyval \<Rightarrow> bool" where
  "recognised_part m =
     (case m of
        PStr s \<Rightarrow> True
      | PDict d \<Rightarrow>
          map_of d ''type''
            \<in> {Some (PStr ''text''), Some (PStr ''image''), Some (PStr ''audio'')}
      | _ \<Rightarrow> False)"

section \<open>Stubs for concrete runs\<close>

text \<open>
  A client that answers from a script, one entry for each call, and with \<open>answer\<close> once
  the script is used up; its state counts the calls. A world with one unreadable file
  and no other file, with the JSON parser above and a fixed clock. A persona built by
  the constructor over the scripted client.
\<close>

definition scripted_client :: "(error + string) list \<Rightarrow> string \<Rightarrow> nat llm_client" where
  "scripted_client script answer =
     \<lparr>model_name = ''stub-model'',
      invoke = (\<lambda>st history.
         (if st < length script then script ! st else Inr answer, Suc st)),
      client_state = 0\<rparr>"

definition test_world :: world where
  "test_world =
     \<lparr>read_file = (\<lambda>path. if path = PStr ''/locked.png''
                           then Inl (OSError ''Permission denied'')
                           else Inl (FileNotFoundError ''No such file or directory'')),
      path_exists = (\<lambda>path. path = ''/locked.png''),
      b64encode = (\<lambda>bytes. bytes),
      loads = json_loads,
      now = ''2025-01-01T00:00:00''\<rparr>"

definition image_part :: "string \<Rightarrow> pyval" where
  "image_part path = PDict [(''type'', PStr ''image''), (''path'', PStr path)]"

definition test_persona :: "(error + string) list \<Rightarrow> string \<Rightarrow> nat active_persona" where
  "test_persona script answer =
     init_persona ''Ana'' (scripted_client script answer) (PStr ''You are Ana'')"

section \<open>Properties of the JSON extraction\<close>

text \<open>The stack of indices is used only through its length, which is the depth.\<close>

lemma scan_braces_depth:
  "stack \<noteq> [] \<Longrightarrow> json_part = seen @ cs \<Longrightarrow> i = length seen \<Longrightarrow>
   scan_braces stack i json_part cs =
     (case depth_scan (int (length stack)) seen cs of
        None \<Rightarrow> Inl (ValueError ''Could not extract complete JSON object'')
      | Some cand \<Rightarrow> Inr cand)"
proof (induction cs arbitrary: stack i seen)
  case Nil
  then show ?case by simp
next
  case (Cons c cs)
  have tk: "take (Suc i) json_part = seen @ [c]" using Cons.prems by simp
  show ?case
  proof (cases "c = CHR ''{''")
    case True
    have "scan_braces (stack @ [i]) (Suc i) json_part cs =
      (case depth_scan (int (length (stack @ [i]))) (seen @ [c]) cs of
        None \<Rightarrow> Inl (ValueError ''Could not extract complete JSON object'')
      | Some cand \<Rightarrow> Inr cand)"
      by (rule Cons.IH) (use Cons.prems in auto)
    with True show ?thesis by (simp add: add.commute)
  next
    case False
    note not_open = False
    show ?thesis
    proof (cases "c = CHR ''}''")
      case True
      obtain s ss where st: "stack = s # ss" using Cons.prems(1) by (cases stack) auto
      show ?thesis
      proof (cases "ss = []")
        case True
        with st \<open>c = CHR ''}''\<close> tk show ?thesis by simp
      next
        case False
        have "scan_braces (butlast stack) (Suc i) json_part cs =
          (case depth_scan (int (length (butlast stack))) (seen @ [c]) cs of
            None \<Rightarrow> Inl (ValueError ''Could not extract complete JSON object'')
          | Some cand \<Rightarrow> Inr cand)"
          by (rule Cons.IH) (use Cons.prems st False in auto)
        moreover have "int (length (butlast stack)) = int (length stack) - 1"
          using st by simp
        ultimately show ?thesis using st False \<open>c = CHR ''}''\<close> by simp
      qed
    next
      case False
      have "scan_braces stack (Suc i) json_part cs =
          (case depth_scan (int (length stack)) (seen @ [c]) cs of
            None \<Rightarrow> Inl (ValueError ''Could not extract complete JSON object'')
          | Some cand \<Rightarrow> Inr cand)"
        by (rule Cons.IH) (use Cons.prems in auto)
      with not_open False show ?thesis by simp
    qed
  qed
qed

lemma dropWhile_brace_hd:
  "dropWhile (\<lambda>c. c \<noteq> CHR ''{'') s = c # cs \<Longrightarrow> c = CHR ''{''"
  using hd_dropWhile[of "\<lambda>c. c \<noteq> CHR ''{''" s] by auto

lemma extract_json_by_depth: "extract_json s = extract_by_depth s"
proof (cases "dropWhile (\<lambda>c. c \<noteq> CHR ''{'') s")
  case Nil
  then show ?thesis
    unfolding extract_json_def extract_by_depth_def re_search_brace_def
    by (simp only: list.case option.case)
next
  case (Cons c cs)
  then have c: "c = CHR ''{''" by (rule dropWhile_brace_hd)
  have "scan_braces [0] (Suc 0) (c # cs) cs =
     (case depth_scan (int (length [0::nat])) [c] cs of
        None \<Rightarrow> Inl (ValueError ''Could not extract complete JSON object'')
      | Some cand \<Rightarrow> Inr cand)"
    by (rule scan_braces_depth) auto
  with Cons c show ?thesis
    unfolding extract_json_def extract_by_depth_def re_search_brace_def by simp
qed

lemma depth_scan_prefix:
  "depth_scan d seen cs = Some cand \<Longrightarrow>
   \<exists>post. seen @ cs = cand @ post \<and> last cand = CHR ''}'' \<and> length seen < length cand"
proof (induction cs arbitrary: d seen)
  case Nil
  then show ?case by simp
next
  case (Cons c cs)
  then show ?case by (fastforce split: if_splits)
qed

lemma extract_by_depth_substring:
  assumes "extract_by_depth s = Inr cand"
  shows "\<exists>pre post. s = pre @ cand @ post \<and> CHR ''{'' \<notin> set pre
           \<and> hd cand = CHR ''{'' \<and> last cand = CHR ''}''"
proof (cases "dropWhile (\<lambda>c. c \<noteq> CHR ''{'') s")
  case Nil
  with assms show ?thesis
    unfolding extract_by_depth_def by (simp only: list.case) simp
next
  case (Cons c cs)
  then have c: "c = CHR ''{''" by (rule dropWhile_brace_hd)
  from assms Cons have "depth_scan 0 [] (c # cs) = Some cand"
    unfolding extract_by_depth_def by (simp split: option.splits del: depth_scan.simps)
  from depth_scan_prefix[OF this] obtain post
    where post: "c # cs = cand @ post" and lst: "last cand = CHR ''}''" and ne: "cand \<noteq> []"
    by auto
  from post ne c have hd: "hd cand = CHR ''{''" by (cases cand) auto
  let ?pre = "takeWhile (\<lambda>c. c \<noteq> CHR ''{'') s"
  have "s = ?pre @ dropWhile (\<lambda>c. c \<noteq> CHR ''{'') s" by simp
  with Cons post have "s = ?pre @ cand @ post" by simp
  moreover have "CHR ''{'' \<notin> set ?pre" by (auto dest: set_takeWhileD)
  ultimately show ?thesis using hd lst by blast
qed

lemma extract_json_no_brace:
  "CHR ''{'' \<notin> set s \<Longrightarrow> extract_json s = Inl (ValueError ''No JSON object found in text'')"
proof -
  assume "CHR ''{'' \<notin> set s"
  then have "dropWhile (\<lambda>c. c \<noteq> CHR ''{'') s = []" by auto
  then show ?thesis
    unfolding extract_json_def re_search_brace_def by (simp only: list.case option.case)
qed

lemma json_loads_error: "json_loads s = Inl e \<Longrightarrow> e = JSONDecodeError ''invalid JSON text''"
  by (auto simp: json_loads_def split: option.splits if_splits)

lemmas json_eval =
  json_loads_def skip_ws_def is_ws_def scan_constant_def scan_number_def is_digit_def
  scan_frac_def scan_exp_def int_of_digits_def digit_val_def unescape_def

lemmas extract_eval = extract_json_def re_search_brace_def

text \<open>
  Claim C7. JSON extraction returns the text from the first \<open>{\<close> through the matching
  \<open>}\<close> found by counting the brace depth: the extractor of the source computes what the
  depth-counter algorithm of the specification computes; a returned candidate is a
  substring of the raw text that starts at the first \<open>{\<close> of the text and ends with
  \<open>}\<close>. The answer embedded in prose extracts to the object with \<open>q01 = 5\<close> and
  \<open>q02 = 3\<close>, and the nested object extracts whole.
\<close>

theorem extract_json_matching_brace:
  "extract_json raw = extract_by_depth raw
   \<and> (\<forall>cand. extract_json raw = Inr cand \<longrightarrow>
         (\<exists>pre post. raw = pre @ cand @ post \<and> CHR ''{'' \<notin> set pre
            \<and> hd cand = CHR ''{'' \<and> last cand = CHR ''}''))
   \<and> extract_json (''Here is my answer:'' @ [CHR 0x0A] @ ''{\"q01\": 5, \"q02\": 3}''
                      @ [CHR 0x0A] @ ''Thanks!'') = Inr ''{\"q01\": 5, \"q02\": 3}''
   \<and> json_loads ''{\"q01\": 5, \"q02\": 3}'' = Inr (PDict [(''q01'', PInt 5), (''q02'', PInt 3)])
   \<and> extract_json ''{\"a\": {\"b\": 1}}'' = Inr ''{\"a\": {\"b\": 1}}''
   \<and> json_loads ''{\"a\": {\"b\": 1}}'' = Inr (PDict [(''a'', PDict [(''b'', PInt 1)])])"
proof -
  have a: "extract_json raw = extract_by_depth raw" by (rule extract_json_by_depth)
  have b: "\<forall>cand. extract_json raw = Inr cand \<longrightarrow>
         (\<exists>pre post. raw = pre @ cand @ post \<and> CHR ''{'' \<notin> set pre
            \<and> hd cand = CHR ''{'' \<and> last cand = CHR ''}'')"
    using extract_by_depth_substring[of raw] by (simp add: extract_json_by_depth)
  have c: "extract_json (''Here is my answer:'' @ [CHR 0x0A] @ ''{\"q01\": 5, \"q02\": 3}''
                      @ [CHR 0x0A] @ ''Thanks!'') = Inr ''{\"q01\": 5, \"q02\": 3}''"
    by (simp add: extract_eval)
  have d: "json_loads ''{\"q01\": 5, \"q02\": 3}''
             = Inr (PDict [(''q01'', PInt 5), (''q02'', PInt 3)])"
    by (simp add: json_eval)
  have e: "extract_json ''{\"a\": {\"b\": 1}}'' = Inr ''{\"a\": {\"b\": 1}}''"
    by (simp add: extract_eval)
  have f: "json_loads ''{\"a\": {\"b\": 1}}'' = Inr (PDict [(''a'', PDict [(''b'', PInt 1)])])"
    by (simp add: json_eval)
  from a b c d e f show ?thesis by blast
qed

theorem extract_json_matching_brace_witness:
  "extract_json ''ok {x{y}} z}'' = Inr ''{x{y}}''
   \<and> (\<exists>pre post. ''ok {x{y}} z}'' = pre @ ''{x{y}}'' @ post \<and> CHR ''{'' \<notin> set pre)"
proof -
  have h: "extract_json ''ok {x{y}} z}'' = Inr ''{x{y}}''" by (simp add: extract_eval)
  from extract_json_matching_brace[of "''ok {x{y}} z}''"] h
  have "\<exists>pre post. ''ok {x{y}} z}'' = pre @ ''{x{y}}'' @ post \<and> CHR ''{'' \<notin> set pre
          \<and> hd ''{x{y}}'' = CHR ''{'' \<and> last ''{x{y}}'' = CHR ''}''"
    by blast
  with h show ?thesis by blast
qed

text \<open>
  Claim C8. For every raw text without a \<open>{\<close>, such as \<open>I cannot answer this.\<close>, the
  extraction fails with the \<open>ValueError\<close> "No JSON object found in text". That
  condition differs from the one raised when a located candidate does not parse: the
  parser never raises it, and for the text \<open>{bad json}\<close> the candidate is located and the
  parser raises a \<open>JSONDecodeError\<close>.
\<close>

theorem extract_json_no_json_found:
  "(CHR ''{'' \<notin> set raw \<longrightarrow>
      extract_json raw = Inl (ValueError ''No JSON object found in text''))
   \<and> extract_json ''I cannot answer this.'' = Inl (ValueError ''No JSON object found in text'')
   \<and> json_loads cand \<noteq> Inl (ValueError ''No JSON object found in text'')
   \<and> extract_json ''{bad json}'' = Inr ''{bad json}''
   \<and> json_loads ''{bad json}'' = Inl (JSONDecodeError ''invalid JSON text'')"
proof -
  have a: "CHR ''{'' \<notin> set raw \<longrightarrow>
      extract_json raw = Inl (ValueError ''No JSON object found in text'')"
    by (simp add: extract_json_no_brace)
  have b: "extract_json ''I cannot answer this.''
             = Inl (ValueError ''No JSON object found in text'')"
    by (rule extract_json_no_brace) simp
  have c: "json_loads cand \<noteq> Inl (ValueError ''No JSON object found in text'')"
    using json_loads_error[of cand] by auto
  have d: "extract_json ''{bad json}'' = Inr ''{bad json}''" by (simp add: extract_eval)
  have e: "json_loads ''{bad json}'' = Inl (JSONDecodeError ''invalid JSON text'')"
    by (simp add: json_eval)
  from a b c d e show ?thesis by blast
qed

theorem extract_json_no_json_found_witness:
  "CHR ''{'' \<notin> set ''no braces }'' \<and>
   extract_json ''no braces }'' = Inl (ValueError ''No JSON object found in text'')"
  using extract_json_no_json_found[of "''no braces }''"] by simp

section \<open>Properties of \<open>interact\<close>\<close>

lemma process_message_unrecognised:
  "\<not> recognised_part m \<Longrightarrow> process_message w p m = Inr None"
  by (cases m) (auto simp: recognised_part_def process_message_def)

lemma process_messages_filter:
  "process_messages w p (filter recognised_part ms) acc = process_messages w p ms acc"
  by (induction ms arbitrary: acc) (auto simp: process_message_unrecognised split: sum.splits option.splits)

lemma process_messages_all_unrecognised:
  "\<forall>m\<in>set ms. \<not> recognised_part m \<Longrightarrow> process_messages w p ms acc = Inr acc"
  by (induction ms arbitrary: acc) (auto simp: process_message_unrecognised)

lemma process_messages_acc:
  "process_messages w p ms acc =
     (case process_messages w p ms [] of Inl e \<Rightarrow> Inl e | Inr parts \<Rightarrow> Inr (acc @ parts))"
proof (induction ms arbitrary: acc)
  case Nil
  then show ?case by simp
next
  case (Cons m ms)
  show ?case
  proof (cases "process_message w p m")
    case (Inl e)
    then show ?thesis by simp
  next
    case (Inr r)
    show ?thesis
    proof (cases r)
      case None
      with Inr Cons.IH[of acc] show ?thesis by simp
    next
      case (Some part)
      with Inr Cons.IH[of "acc @ [part]"] Cons.IH[of "[part]"] show ?thesis
        by (simp split: sum.splits)
    qed
  qed
qed

lemma process_messages_append:
  "process_messages w p (xs @ ys) acc =
     (case process_messages w p xs acc of Inl e \<Rightarrow> Inl e | Inr acc' \<Rightarrow> process_messages w p ys acc')"
  by (induction xs arbitrary: acc) (auto split: sum.splits option.splits)

lemma interact_filter:
  "interact w p (PList ms) = interact w p (PList (filter recognised_part ms))"
  by (simp add: interact_def process_messages_filter)

lemma process_message_transcriber:
  "whisper_transcriber p' = whisper_transcriber p \<Longrightarrow> process_message w p' m = process_message w p m"
  by (cases m) (simp_all add: process_message_def split: option.splits)

lemma interact_processed:
  "process_messages w p ms [] = Inr parts \<Longrightarrow>
   interact w p (PList ms) =
     (case invoke (llm_client p) (client_state (llm_client p))
             (message_history p @ [user_msg parts]) of
        (Inl e, st) \<Rightarrow>
          (Inl e, p\<lparr>llm_client := (llm_client p)\<lparr>client_state := st\<rparr>,
                    message_history := message_history p @ [user_msg parts]\<rparr>)
      | (Inr response, st) \<Rightarrow>
          (Inr response,
           p\<lparr>llm_client := (llm_client p)\<lparr>client_state := st\<rparr>,
             message_history := message_history p @ [user_msg parts, assistant_msg response]\<rparr>))"
  by (simp add: interact_def Let_def split: prod.splits sum.splits)

lemma interact_failed:
  "process_messages w p ms [] = Inl e \<Longrightarrow> interact w p (PList ms) = (Inl e, p)"
  by (simp add: interact_def)

lemma process_messages_transcriber:
  "whisper_transcriber p' = whisper_transcriber p \<Longrightarrow>
   process_messages w p' ms acc = process_messages w p ms acc"
proof (induction ms arbitrary: acc)
  case Nil
  then show ?case by simp
next
  case (Cons m ms)
  from Cons.prems have "process_message w p' m = process_message w p m"
    by (rule process_message_transcriber)
  with Cons show ?case by (simp split: sum.splits option.splits)
qed

lemmas fixture_eval = scripted_client_def test_world_def test_persona_def init_persona_def
  reset_history_def user_msg_def assistant_msg_def image_part_def


text \<open>
  Claim C10. An element of the parts list that is neither a string nor a dictionary
  whose type tag is \<open>text\<close>, \<open>image\<close> or \<open>audio\<close> is left out of the user turn without
  an error: the call behaves as on the list without such elements. When no element is
  recognised, the user turn is appended with an empty content list and the client is
  invoked on that conversation.
\<close>

theorem interact_omits_unrecognised:
  "(\<not> recognised_part m \<longrightarrow> process_message w p m = Inr None)
   \<and> interact w p (PList ms) = interact w p (PList (filter recognised_part ms))
   \<and> ((\<forall>m\<in>set ms. \<not> recognised_part m) \<longrightarrow>
        interact w p (PList ms) =
          (case invoke (llm_client p) (client_state (llm_client p))
                  (message_history p @ [user_msg []]) of
             (Inl e, st) \<Rightarrow>
               (Inl e, p\<lparr>llm_client := (llm_client p)\<lparr>client_state := st\<rparr>,
                         message_history := message_history p @ [user_msg []]\<rparr>)
           | (Inr response, st) \<Rightarrow>
               (Inr response,
                p\<lparr>llm_client := (llm_client p)\<lparr>client_state := st\<rparr>,
                  message_history :=
                    message_history p @ [user_msg [], assistant_msg response]\<rparr>)))"
proof -
  have a: "\<not> recognised_part m \<longrightarrow> process_message w p m = Inr None"
    by (simp add: process_message_unrecognised)
  have b: "interact w p (PList ms) = interact w p (PList (filter recognised_part ms))"
    by (rule interact_filter)
  have c: "(\<forall>m\<in>set ms. \<not> recognised_part m) \<longrightarrow>
        interact w p (PList ms) =
          (case invoke (llm_client p) (client_state (llm_client p))
                  (message_history p @ [user_msg []]) of
             (Inl e, st) \<Rightarrow>
               (Inl e, p\<lparr>llm_client := (llm_client p)\<lparr>client_state := st\<rparr>,
                         message_history := message_history p @ [user_msg []]\<rparr>)
           | (Inr response, st) \<Rightarrow>
               (Inr response,
                p\<lparr>llm_client := (llm_client p)\<lparr>client_state := st\<rparr>,
                  message_history :=
                    message_history p @ [user_msg [], assistant_msg response]\<rparr>))"
    by (simp add: interact_processed process_messages_all_unrecognised)
  show ?thesis by (rule conjI[OF a conjI[OF b c]])
qed

theorem interact_omits_unrecognised_witness:
  "\<not> recognised_part (PInt 3) \<and> \<not> recognised_part PNone
   \<and> \<not> recognised_part (PDict [(''type'', PStr ''video''), (''path'', PStr ''/a.mp4'')])
   \<and> fst (interact test_world (test_persona [] ''fine'')
        (PList [PInt 3, PNone, PDict [(''type'', PStr ''video''), (''path'', PStr ''/a.mp4'')]]))
       = Inr ''fine''
   \<and> message_history (snd (interact test_world (test_persona [] ''fine'')
         (PList [PInt 3, PNone, PDict [(''type'', PStr ''video''), (''path'', PStr ''/a.mp4'')]])))
       = [PDict [(''role'', PStr ''system''), (''content'', PStr ''You are Ana'')],
          PDict [(''role'', PStr ''user''), (''content'', PList [])],
          PDict [(''role'', PStr ''assistant''), (''content'', PStr ''fine'')]]"
proof -
  let ?ms = "[PInt 3, PNone, PDict [(''type'', PStr ''video''), (''path'', PStr ''/a.mp4'')]]"
  let ?p = "test_persona [] ''fine''"
  have h: "\<forall>m\<in>set ?ms. \<not> recognised_part m" by (simp add: recognised_part_def)
  from interact_omits_unrecognised[of "PNone" test_world ?p ?ms, THEN conjunct2, THEN conjunct2] h
  have "interact test_world ?p (PList ?ms) =
          (case invoke (llm_client ?p) (client_state (llm_client ?p))
                  (message_history ?p @ [user_msg []]) of
             (Inl e, st) \<Rightarrow>
               (Inl e, ?p\<lparr>llm_client := (llm_client ?p)\<lparr>client_state := st\<rparr>,
                         message_history := message_history ?p @ [user_msg []]\<rparr>)
           | (Inr response, st) \<Rightarrow>
               (Inr response,
                ?p\<lparr>llm_client := (llm_client ?p)\<lparr>client_state := st\<rparr>,
                  message_history :=
                    message_history ?p @ [user_msg [], assistant_msg response]\<rparr>))"
    by (rule mp)
  then show ?thesis using h by (simp add: fixture_eval)
qed


text \<open>
  Claim C5, as amended. For every parts list that contains an image part whose file is
  absent, \<open>interact\<close> fails and returns the persona as it was before the call, so that no
  part is committed to the history. The failure is the \<open>FileNotFoundError\<close> of that image
  when the parts before it are processed without error; the parts are processed in
  order and an earlier failure is the one that is raised.
\<close>

theorem interact_missing_image:
  assumes "map_of d ''type'' = Some (PStr ''image'')"
      and "map_of d ''path'' = Some image_path"
      and "read_file w image_path = Inl (FileNotFoundError msg)"
  shows "(\<exists>e. interact w p (PList (before @ PDict d # rest)) = (Inl e, p))
       \<and> (\<forall>parts. process_messages w p before [] = Inr parts \<longrightarrow>
            interact w p (PList (before @ PDict d # rest)) = (Inl (FileNotFoundError msg), p))"
proof -
  have pm: "process_message w p (PDict d) = Inl (FileNotFoundError msg)"
    using assms by (simp add: process_message_def)
  have step: "process_messages w p (PDict d # rest) acc = Inl (FileNotFoundError msg)" for acc
    using pm by simp
  have "\<exists>e. process_messages w p (before @ PDict d # rest) [] = Inl e"
    by (cases "process_messages w p before []")
       (simp_all add: process_messages_append step del: process_messages.simps)
  then have a: "\<exists>e. interact w p (PList (before @ PDict d # rest)) = (Inl e, p)"
    by (auto simp: interact_failed)
  have b: "\<forall>parts. process_messages w p before [] = Inr parts \<longrightarrow>
            interact w p (PList (before @ PDict d # rest)) = (Inl (FileNotFoundError msg), p)"
    by (simp add: interact_failed process_messages_append step del: process_messages.simps)
  show ?thesis by (rule conjI[OF a b])
qed
theorem interact_missing_image_witness:
  "interact test_world (test_persona [] ''fine'')
     (PList [PStr ''look at this'', image_part ''/nonexistent.png'', PStr ''and this''])
   = (Inl (FileNotFoundError ''No such file or directory''), test_persona [] ''fine'')
   \<and> message_history (test_persona [] ''fine'')
       = [PDict [(''role'', PStr ''system''), (''content'', PStr ''You are Ana'')]]"
proof -
  let ?p = "test_persona [] ''fine''"
  have h1: "map_of [(''type'', PStr ''image''), (''path'', PStr ''/nonexistent.png'')] ''type''
              = Some (PStr ''image'')" by simp
  have h2: "map_of [(''type'', PStr ''image''), (''path'', PStr ''/nonexistent.png'')] ''path''
              = Some (PStr ''/nonexistent.png'')" by simp
  have h3: "read_file test_world (PStr ''/nonexistent.png'')
              = Inl (FileNotFoundError ''No such file or directory'')"
    by (simp add: test_world_def)
  have h4: "process_messages test_world ?p [PStr ''look at this''] []
            = Inr [PDict [(''type'', PStr ''text''), (''text'', PStr ''look at this'')]]"
    by (simp add: process_message_def)
  from interact_missing_image[OF h1 h2 h3, of ?p "[PStr ''look at this'']" "[PStr ''and this'']"] h4
  have "interact test_world ?p
          (PList ([PStr ''look at this''] @
             PDict [(''type'', PStr ''image''), (''path'', PStr ''/nonexistent.png'')]
             # [PStr ''and this'']))
        = (Inl (FileNotFoundError ''No such file or directory''), ?p)"
    by blast
  then show ?thesis by (simp add: image_part_def) (simp add: fixture_eval)
qed


text \<open>
  The claim as stated promises the missing-file condition for every such list. With an
  unreadable image before the missing one, the call fails with the error of the first.
\<close>

theorem interact_missing_image_counterexample:
  "read_file test_world (PStr ''/nonexistent.png'')
     = Inl (FileNotFoundError ''No such file or directory'')
   \<and> fst (interact test_world (test_persona [] ''fine'')
          (PList [image_part ''/locked.png'', image_part ''/nonexistent.png'']))
     = Inl (OSError ''Permission denied'')"
  by (simp add: interact_def process_message_def fixture_eval)

lemma interact_keeps_transcriber:
  "whisper_transcriber (snd (interact w p messages)) = whisper_transcriber p"
  by (simp add: interact_def Let_def split: sum.splits prod.splits)




text \<open>
  Claim C2 describes audio parts as transcribed by the transcription service into a text
  part. The constructor never assigns \<open>whisper_transcriber\<close>, and neither \<open>interact\<close> nor
  \<open>reset_history\<close> does: for a persona built by the constructor, an audio part makes
  \<open>interact\<close> fail with \<open>AttributeError\<close> before any transcriber is called, and the
  persona is left as it was.
\<close>

theorem interact_audio_attribute_error:
  "whisper_transcriber (init_persona nm client prompt) = None
   \<and> interact w (init_persona nm client prompt)
       (PList [PDict [(''type'', PStr ''audio''), (''path'', PStr audio_path)]])
     = (Inl (AttributeError ''ActivePersona object has no attribute whisper_transcriber''),
        init_persona nm client prompt)
   \<and> whisper_transcriber (snd (interact w (init_persona nm client prompt) messages)) = None
   \<and> whisper_transcriber (reset_history (init_persona nm client prompt)) = None"
  by (simp add: interact_keeps_transcriber)
   (simp add: interact_def process_message_def init_persona_def reset_history_def)

section \<open>Properties of \<open>evaluate\<close>\<close>

lemma persona_at_shift:
  "persona_at k ev w t ms (snd (trial ev w t ms p)) = persona_at (Suc k) ev w t ms p"
  by (induction k) simp_all

lemma evaluate_loop_records:
  "evaluate_loop n ev w t ms p acc =
     (acc @ concat (map (\<lambda>k. trial_records (fst (trial ev w t ms (persona_at k ev w t ms p))))
                     [0..<n]),
      persona_at n ev w t ms p)"
proof (induction n arbitrary: p acc)
  case 0
  then show ?case by simp
next
  case (Suc n)
  obtain r p' where tr: "trial ev w t ms p = (r, p')" by (cases "trial ev w t ms p")
  have shift: "persona_at k ev w t ms p' = persona_at (Suc k) ev w t ms p" for k
    using persona_at_shift[of k ev w t ms p] tr by simp
  have upt: "[0..<Suc n] = 0 # map Suc [0..<n]"
    by (simp add: upt_conv_Cons map_Suc_upt del: upt_Suc)
  have step: "evaluate_loop (Suc n) ev w t ms p acc =
                evaluate_loop n ev w t ms p' (acc @ trial_records r)"
    using tr by (cases r) (simp_all add: trial_records_def)
  show ?case
    unfolding step Suc.IH upt
    by (simp add: shift tr comp_def del: persona_at.simps(2))
qed

lemma length_trial_records: "length (trial_records r) \<le> 1"
  by (cases r) (simp_all add: trial_records_def)

lemma length_concat_le:
  "(\<And>x. x \<in> set xs \<Longrightarrow> length (f x) \<le> 1) \<Longrightarrow> length (concat (map f xs)) \<le> length xs"
proof (induction xs)
  case Nil
  then show ?case by simp
next
  case (Cons a xs)
  have "length (f a) \<le> 1" using Cons.prems by simp
  moreover have "length (concat (map f xs)) \<le> length xs" using Cons by simp
  ultimately show ?case by simp
qed

lemma evaluate_loop_length_le:
  "length (fst (evaluate_loop n ev w t ms p [])) \<le> n"
proof -
  have "length (concat (map (\<lambda>k. trial_records (fst (trial ev w t ms (persona_at k ev w t ms p))))
                          [0..<n])) \<le> length [0..<n]"
    by (rule length_concat_le) (rule length_trial_records)
  then show ?thesis by (simp add: evaluate_loop_records)
qed


lemma snd_trial:
  "snd (trial ev w t ms q) = snd (interact w (reset_if_auto ev q) (PList ms))"
  by (simp add: trial_def split: prod.splits sum.splits pyval.splits)

lemma interact_invoke:
  "invoke (llm_client (snd (interact w q m))) = invoke (llm_client q)"
  by (simp add: interact_def Let_def split: sum.splits prod.splits)

lemma reset_if_auto_client: "llm_client (reset_if_auto ev q) = llm_client q"
  by (simp add: reset_if_auto_def reset_history_def)

lemma trial_invoke:
  "invoke (llm_client (snd (trial ev w t ms q))) = invoke (llm_client q)"
  by (simp add: snd_trial interact_invoke reset_if_auto_client)

lemma persona_at_invoke:
  "invoke (llm_client (persona_at k ev w t ms p)) = invoke (llm_client p)"
  by (induction k) (simp_all add: trial_invoke)

lemma process_images_ok:
  "\<forall>path\<in>set ps. \<exists>img. read_file w (PStr path) = Inr img \<Longrightarrow>
   \<exists>parts. process_messages w q
     (map (\<lambda>image_path. PDict [(''type'', PStr ''image''), (''path'', PStr image_path)]) ps) acc
     = Inr parts"
proof (induction ps arbitrary: acc)
  case Nil
  then show ?case by simp
next
  case (Cons a ps)
  then obtain img where "read_file w (PStr a) = Inr img" by auto
  then have "process_message w q (PDict [(''type'', PStr ''image''), (''path'', PStr a)])
      = Inr (Some (PDict
                        [(''type'', PStr ''image_url''),
                         (''image_url'',
                            PDict [(''url'',
                              PStr (''data:image/jpeg;base64,'' @ b64encode w img))])]))"
    by (simp add: process_message_def)
  moreover from Cons have "\<exists>parts. process_messages w q
     (map (\<lambda>image_path. PDict [(''type'', PStr ''image''), (''path'', PStr image_path)]) ps) acc'
     = Inr parts" for acc'
    by simp
  ultimately show ?case by simp
qed

lemma prepared_messages_ok:
  assumes "\<forall>path\<in>set (images_paths ev). path_exists w path \<longrightarrow>
             (\<exists>img. read_file w (PStr path) = Inr img)"
  shows "\<exists>parts. process_messages w q (prepare_evaluation_messages w ev) [] = Inr parts"
proof -
  have "\<forall>path\<in>set (filter (path_exists w) (images_paths ev)).
          \<exists>img. read_file w (PStr path) = Inr img"
    using assms by simp
  from process_images_ok[OF this] show ?thesis
    by (simp add: prepare_evaluation_messages_def process_message_def)
qed

lemma trial_succeeds:
  assumes backend: "\<forall>st history. \<exists>response st' cand obj entry.
             invoke (llm_client q) st history = (Inr response, st') \<and> extract_json response = Inr cand
             \<and> loads w cand = Inr (PDict obj) \<and> preprocess_entry ev obj = Inr entry"
      and msgs: "process_messages w (reset_if_auto ev q) ms [] = Inr parts"
  shows "\<exists>entry. fst (trial ev w t ms q) = Inr entry"
proof -
  let ?q = "reset_if_auto ev q"
  from backend obtain response st' cand obj entry where
    inv: "invoke (llm_client ?q) (client_state (llm_client ?q))
            (message_history ?q @ [user_msg parts]) = (Inr response, st')"
    and ex: "extract_json response = Inr cand" and ld: "loads w cand = Inr (PDict obj)"
    and pre: "preprocess_entry ev obj = Inr entry"
    unfolding reset_if_auto_client by blast
  from interact_processed[OF msgs] inv
  have "fst (interact w ?q (PList ms)) = Inr response" by simp
  then obtain q' where "interact w ?q (PList ms) = (Inr response, q')"
    by (cases "interact w ?q (PList ms)") simp
  then show ?thesis using ex ld pre by (simp add: trial_def)
qed

lemma length_concat_eq:
  "(\<And>x. x \<in> set xs \<Longrightarrow> length (f x) = 1) \<Longrightarrow> length (concat (map f xs)) = length xs"
  by (induction xs) simp_all



text \<open>
  Claim C4, as amended. The list returned by \<open>evaluate\<close> has at most
  \<open>max(iterations, 1)\<close> entries, and for \<open>iterations < 1\<close> the call behaves as for
  \<open>iterations = 1\<close>. The length is \<open>max(iterations, 1)\<close> when every answer of the client
  is a text whose candidate, cut from the first \<open>{\<close> to the \<open>}\<close> that closes it by brace
  counting, parses to a JSON object that the pre-processing hook accepts, and every
  prompt image that exists can be read.
\<close>

theorem evaluate_length:
  "length (fst (evaluate ev w p n)) \<le> nat (max n 1)
   \<and> (n < 1 \<longrightarrow> evaluate ev w p n = evaluate ev w p 1)
   \<and> ((\<forall>st history. \<exists>response st' cand obj entry.
          invoke (llm_client p) st history = (Inr response, st') \<and> extract_json response = Inr cand
          \<and> loads w cand = Inr (PDict obj) \<and> preprocess_entry ev obj = Inr entry)
       \<and> (\<forall>path\<in>set (images_paths ev). path_exists w path \<longrightarrow>
             (\<exists>img. read_file w (PStr path) = Inr img))
      \<longrightarrow> length (fst (evaluate ev w p n)) = nat (max n 1))"
proof -
  let ?t = "entry_template w p" and ?ms = "prepare_evaluation_messages w ev"
  have ev: "evaluate ev w p n = evaluate_loop (nat (max n 1)) ev w ?t ?ms p []"
    by (simp add: evaluate_def max_def Let_def)
  have a: "length (fst (evaluate ev w p n)) \<le> nat (max n 1)"
    unfolding ev by (rule evaluate_loop_length_le)
  have b: "n < 1 \<longrightarrow> evaluate ev w p n = evaluate ev w p 1"
    by (simp add: evaluate_def)
  have c: "length (fst (evaluate ev w p n)) = nat (max n 1)"
    if backend: "\<forall>st history. \<exists>response st' cand obj entry.
          invoke (llm_client p) st history = (Inr response, st') \<and> extract_json response = Inr cand
          \<and> loads w cand = Inr (PDict obj) \<and> preprocess_entry ev obj = Inr entry"
      and images: "\<forall>path\<in>set (images_paths ev). path_exists w path \<longrightarrow>
             (\<exists>img. read_file w (PStr path) = Inr img)"
  proof -
    have one: "length (trial_records (fst (trial ev w ?t ?ms (persona_at k ev w ?t ?ms p)))) = 1"
      for k
    proof -
      let ?q = "persona_at k ev w ?t ?ms p"
      from prepared_messages_ok[OF images] obtain parts
        where "process_messages w (reset_if_auto ev ?q) ?ms [] = Inr parts" by blast
      moreover have "\<forall>st history. \<exists>response st' cand obj entry.
          invoke (llm_client ?q) st history = (Inr response, st') \<and> extract_json response = Inr cand
          \<and> loads w cand = Inr (PDict obj) \<and> preprocess_entry ev obj = Inr entry"
        using backend by (simp add: persona_at_invoke)
      ultimately obtain entry where "fst (trial ev w ?t ?ms ?q) = Inr entry"
        using trial_succeeds by blast
      then show ?thesis by (simp add: trial_records_def)
    qed
    have "length (concat (map (\<lambda>k. trial_records (fst (trial ev w ?t ?ms (persona_at k ev w ?t ?ms p))))
            [0..<nat (max n 1)])) = length [0..<nat (max n 1)]"
      by (rule length_concat_eq) (rule one)
    then show ?thesis unfolding ev by (simp add: evaluate_loop_records)
  qed
  from a b c show ?thesis by blast
qed
theorem evaluate_length_witness:
  "length (fst (evaluate (evaluator_base ''Rate the app'' True) test_world
             (test_persona [] ''Answer: {\"q01\": 5}'') 3)) = 3
   \<and> evaluate (evaluator_base ''Rate the app'' True) test_world
             (test_persona [] ''Answer: {\"q01\": 5}'') (- 2)
     = evaluate (evaluator_base ''Rate the app'' True) test_world
             (test_persona [] ''Answer: {\"q01\": 5}'') 1"
proof -
  let ?ev = "evaluator_base ''Rate the app'' True"
  let ?p = "test_persona [] ''Answer: {\"q01\": 5}''"
  have inv: "invoke (llm_client ?p) st history = (Inr ''Answer: {\"q01\": 5}'', Suc st)"
    for st history
    by (simp add: fixture_eval)
  have ex: "extract_json ''Answer: {\"q01\": 5}'' = Inr ''{\"q01\": 5}''"
    by (simp add: extract_eval)
  have ld: "loads test_world ''{\"q01\": 5}'' = Inr (PDict [(''q01'', PInt 5)])"
    by (simp add: test_world_def json_eval)
  have pre: "preprocess_entry ?ev [(''q01'', PInt 5)] = Inr [(''q01'', PInt 5)]"
    by (simp add: evaluator_base_def)
  have h1: "\<forall>st history. \<exists>response st' cand obj entry.
          invoke (llm_client ?p) st history = (Inr response, st') \<and> extract_json response = Inr cand
          \<and> loads test_world cand = Inr (PDict obj) \<and> preprocess_entry ?ev obj = Inr entry"
    using inv ex ld pre by blast
  have h2: "\<forall>path\<in>set (images_paths ?ev). path_exists test_world path \<longrightarrow>
             (\<exists>img. read_file test_world (PStr path) = Inr img)"
    by (simp add: evaluator_base_def)
  have h3: "(- 2 :: int) < 1" by simp
  from evaluate_length[of ?ev test_world ?p 3, THEN conjunct2, THEN conjunct2] h1 h2
  have a: "length (fst (evaluate ?ev test_world ?p 3)) = nat (max 3 1)" by blast
  from evaluate_length[of ?ev test_world ?p "- 2", THEN conjunct2, THEN conjunct1] h3
  have b: "evaluate ?ev test_world ?p (- 2) = evaluate ?ev test_world ?p 1" by blast
  from a b show ?thesis by simp
qed


text \<open>
  The claim as stated gives equality whenever the client returns text containing a
  well-formed JSON object. The text \<open>{"a": "{"}\<close> is a well-formed JSON object, but the
  brace inside its string value leaves the brace count open: the extraction fails and
  \<open>evaluate\<close> returns no record.
\<close>

theorem evaluate_length_counterexample:
  "json_loads ''{\"a\": \"{\"}'' = Inr (PDict [(''a'', PStr ''{'')])
   \<and> extract_json ''{\"a\": \"{\"}'' = Inl (ValueError ''Could not extract complete JSON object'')
   \<and> length (fst (evaluate (evaluator_base ''Rate the app'' True) test_world
                (test_persona [] ''{\"a\": \"{\"}'') 2)) = 0"
proof -
  have a: "json_loads ''{\"a\": \"{\"}'' = Inr (PDict [(''a'', PStr ''{'')])"
    by (simp add: json_eval)
  have b: "extract_json ''{\"a\": \"{\"}''
             = Inl (ValueError ''Could not extract complete JSON object'')"
    by (simp add: extract_eval)
  have c: "length (fst (evaluate (evaluator_base ''Rate the app'' True) test_world
                (test_persona [] ''{\"a\": \"{\"}'') 2)) = 0"
    by code_simp
  show ?thesis by (rule conjI[OF a conjI[OF b c]])
qed

lemma interact_system_prompt:
  "system_prompt (snd (interact w q m)) = system_prompt q"
  by (simp add: interact_def Let_def split: sum.splits prod.splits)

lemma reset_if_auto_system_prompt: "system_prompt (reset_if_auto ev q) = system_prompt q"
  by (simp add: reset_if_auto_def reset_history_def)

lemma persona_at_system_prompt:
  "system_prompt (persona_at k ev w t ms p) = system_prompt p"
  by (induction k) (simp_all add: snd_trial interact_system_prompt reset_if_auto_system_prompt)

lemma interact_success_history:
  assumes "fst (interact w q m) = Inr response"
  shows "\<exists>parts. message_history (snd (interact w q m)) =
           message_history q @ [user_msg parts, assistant_msg response]"
  using assms by (auto simp: interact_def Let_def split: sum.splits prod.splits)

lemma trial_success_interact:
  assumes "fst (trial ev w t ms q) = Inr entry"
  shows "\<exists>response. fst (interact w (reset_if_auto ev q) (PList ms)) = Inr response"
  using assms by (auto simp: trial_def split: sum.splits prod.splits)

lemma interact_history_mono:
  "length (message_history q) \<le> length (message_history (snd (interact w q m)))"
  by (simp add: interact_def Let_def split: sum.splits prod.splits)

lemma reset_if_auto_transcriber:
  "whisper_transcriber (reset_if_auto ev q) = whisper_transcriber q"
  by (simp add: reset_if_auto_def reset_history_def)

lemma interact_history_shape:
  "message_history (snd (interact w q (PList ms))) =
     (case process_messages w q ms [] of
        Inl e \<Rightarrow> message_history q
      | Inr parts \<Rightarrow>
          message_history q @ [user_msg parts]
            @ (case fst (invoke (llm_client q) (client_state (llm_client q))
                           (message_history q @ [user_msg parts])) of
                 Inl e \<Rightarrow> []
               | Inr response \<Rightarrow> [assistant_msg response]))"
  by (simp add: interact_def Let_def split: sum.splits prod.splits)

lemma auto_reset_trial_history:
  assumes "auto_reset ev"
  shows "message_history (persona_at (Suc k) ev w t ms p) =
     (case process_messages w (persona_at k ev w t ms p) ms [] of
        Inl e \<Rightarrow> [PDict [(''role'', PStr ''system''), (''content'', system_prompt p)]]
      | Inr parts \<Rightarrow>
          [PDict [(''role'', PStr ''system''), (''content'', system_prompt p)], user_msg parts]
            @ (case fst (invoke (llm_client (persona_at k ev w t ms p))
                           (client_state (llm_client (persona_at k ev w t ms p)))
                           [PDict [(''role'', PStr ''system''), (''content'', system_prompt p)],
                            user_msg parts]) of
                 Inl e \<Rightarrow> []
               | Inr response \<Rightarrow> [assistant_msg response]))"
proof -
  let ?q = "persona_at k ev w t ms p"
  let ?r = "reset_if_auto ev ?q"
  have h: "message_history ?r = [PDict [(''role'', PStr ''system''), (''content'', system_prompt p)]]"
    using assms by (simp add: reset_if_auto_def reset_history_def persona_at_system_prompt)
  have pm: "process_messages w ?r ms [] = process_messages w ?q ms []"
    by (rule process_messages_transcriber) (rule reset_if_auto_transcriber)
  have "message_history (persona_at (Suc k) ev w t ms p) =
          message_history (snd (interact w ?r (PList ms)))"
    by (simp add: snd_trial)
  also have "\<dots> =
     (case process_messages w ?q ms [] of
        Inl e \<Rightarrow> [PDict [(''role'', PStr ''system''), (''content'', system_prompt p)]]
      | Inr parts \<Rightarrow>
          [PDict [(''role'', PStr ''system''), (''content'', system_prompt p)], user_msg parts]
            @ (case fst (invoke (llm_client ?q) (client_state (llm_client ?q))
                           [PDict [(''role'', PStr ''system''), (''content'', system_prompt p)],
                            user_msg parts]) of
                 Inl e \<Rightarrow> []
               | Inr response \<Rightarrow> [assistant_msg response]))"
    unfolding interact_history_shape pm h reset_if_auto_client by (simp split: sum.splits)
  finally show ?thesis .
qed

lemma auto_reset_trial_history_le:
  assumes "auto_reset ev"
  shows "length (message_history (persona_at (Suc k) ev w t ms p)) \<le> 3"
  unfolding auto_reset_trial_history[OF assms]
  by (simp split: sum.splits)

lemma no_reset_trial_growth:
  assumes "\<not> auto_reset ev"
  shows "length (message_history (persona_at k ev w t ms p))
           + 2 * length (trial_records (fst (trial ev w t ms (persona_at k ev w t ms p))))
         \<le> length (message_history (persona_at (Suc k) ev w t ms p))"
proof -
  let ?q = "persona_at k ev w t ms p"
  from assms have same: "reset_if_auto ev ?q = ?q" by (simp add: reset_if_auto_def)
  have nxt: "persona_at (Suc k) ev w t ms p = snd (interact w ?q (PList ms))"
    by (simp add: snd_trial same)
  show ?thesis
  proof (cases "fst (trial ev w t ms ?q)")
    case (Inl e)
    then show ?thesis unfolding nxt by (simp add: trial_records_def interact_history_mono)
  next
    case (Inr entry)
    from trial_success_interact[OF Inr] obtain response
      where "fst (interact w ?q (PList ms)) = Inr response" unfolding same by blast
    from interact_success_history[OF this] obtain parts
      where "message_history (snd (interact w ?q (PList ms))) =
               message_history ?q @ [user_msg parts, assistant_msg response]" by blast
    then show ?thesis unfolding nxt using Inr by (simp add: trial_records_def)
  qed
qed

lemma no_reset_growth:
  assumes "\<not> auto_reset ev"
  shows "length (message_history p)
           + 2 * length (concat (map (\<lambda>k. trial_records
                    (fst (trial ev w t ms (persona_at k ev w t ms p)))) [0..<n]))
         \<le> length (message_history (persona_at n ev w t ms p))"
proof (induction n)
  case 0
  then show ?case by simp
next
  case (Suc n)
  from no_reset_trial_growth[OF assms, of n w t ms p] Suc show ?case
    by (simp del: persona_at.simps(2))
qed

text \<open>
  Claim C9. The persona that an iteration of \<open>evaluate\<close> leaves is the one that
  \<open>interact\<close> leaves when it is called on \<open>reset_if_auto\<close> of the persona that the
  iteration found. With \<open>auto_reset\<close> enabled that persona has a history of length 1, the
  system turn holding the system prompt, so the user turn is appended to exactly that
  turn: after the iteration the history is the system turn alone when the parts could not
  be processed, and otherwise the system turn and the user turn, followed by the assistant
  turn when the client answered; the history that \<open>evaluate\<close> leaves has at most 3 turns.
  With \<open>auto_reset\<close> disabled \<open>interact\<close> receives the persona as the previous iteration
  left it, each successful trial makes the history longer by 2, a user turn followed by an
  assistant turn, and over a call of \<open>evaluate\<close> the history grows by at least 2 for each
  returned record. The persona that \<open>evaluate\<close> leaves is the one after
  \<open>max(iterations, 1)\<close> iterations.
\<close>

theorem auto_reset_history_length:
  "persona_at (Suc k) ev w t ms p =
     snd (interact w (reset_if_auto ev (persona_at k ev w t ms p)) (PList ms))
   \<and> (auto_reset ev \<longrightarrow>
      message_history (reset_if_auto ev (persona_at k ev w t ms p))
        = [PDict [(''role'', PStr ''system''), (''content'', system_prompt p)]]
      \<and> length (message_history (reset_if_auto ev (persona_at k ev w t ms p))) = 1
      \<and> message_history (persona_at (Suc k) ev w t ms p) =
          (case process_messages w (persona_at k ev w t ms p) ms [] of
             Inl e \<Rightarrow> [PDict [(''role'', PStr ''system''), (''content'', system_prompt p)]]
           | Inr parts \<Rightarrow>
               [PDict [(''role'', PStr ''system''), (''content'', system_prompt p)],
                user_msg parts]
                 @ (case fst (invoke (llm_client (persona_at k ev w t ms p))
                                (client_state (llm_client (persona_at k ev w t ms p)))
                                [PDict [(''role'', PStr ''system''),
                                        (''content'', system_prompt p)],
                                 user_msg parts]) of
                      Inl e \<Rightarrow> []
                    | Inr response \<Rightarrow> [assistant_msg response]))
      \<and> length (message_history (snd (evaluate ev w p n))) \<le> 3)
   \<and> (\<not> auto_reset ev \<longrightarrow>
        reset_if_auto ev (persona_at k ev w t ms p) = persona_at k ev w t ms p
        \<and> (\<forall>entry. fst (trial ev w t ms (persona_at k ev w t ms p)) = Inr entry \<longrightarrow>
              (\<exists>parts response.
                  message_history (persona_at (Suc k) ev w t ms p) =
                    message_history (persona_at k ev w t ms p)
                      @ [user_msg parts, assistant_msg response])
              \<and> length (message_history (persona_at (Suc k) ev w t ms p)) =
                  length (message_history (persona_at k ev w t ms p)) + 2)
        \<and> length (message_history p) + 2 * length (fst (evaluate ev w p n))
            \<le> length (message_history (snd (evaluate ev w p n))))
   \<and> snd (evaluate ev w p n) =
       persona_at (nat (max n 1)) ev w (entry_template w p) (prepare_evaluation_messages w ev) p"
proof -
  let ?q = "persona_at k ev w t ms p"
  let ?t = "entry_template w p" and ?ms = "prepare_evaluation_messages w ev"
  have ev: "evaluate ev w p n = evaluate_loop (nat (max n 1)) ev w ?t ?ms p []"
    by (simp add: evaluate_def max_def Let_def)
  have tie: "persona_at (Suc k) ev w t ms p = snd (interact w (reset_if_auto ev ?q) (PList ms))"
    by (simp add: snd_trial)
  have a: "auto_reset ev \<longrightarrow>
      message_history (reset_if_auto ev ?q)
        = [PDict [(''role'', PStr ''system''), (''content'', system_prompt p)]]
      \<and> length (message_history (reset_if_auto ev ?q)) = 1"
    by (simp add: reset_if_auto_def reset_history_def persona_at_system_prompt)
  have a2: "auto_reset ev \<longrightarrow> message_history (persona_at (Suc k) ev w t ms p) =
          (case process_messages w ?q ms [] of
             Inl e \<Rightarrow> [PDict [(''role'', PStr ''system''), (''content'', system_prompt p)]]
           | Inr parts \<Rightarrow>
               [PDict [(''role'', PStr ''system''), (''content'', system_prompt p)],
                user_msg parts]
                 @ (case fst (invoke (llm_client ?q) (client_state (llm_client ?q))
                                [PDict [(''role'', PStr ''system''),
                                        (''content'', system_prompt p)],
                                 user_msg parts]) of
                      Inl e \<Rightarrow> []
                    | Inr response \<Rightarrow> [assistant_msg response]))"
    using auto_reset_trial_history[of ev k w t ms p] by blast
  have a3: "auto_reset ev \<longrightarrow> length (message_history (snd (evaluate ev w p n))) \<le> 3"
  proof
    assume on: "auto_reset ev"
    obtain j where j: "nat (max n 1) = Suc j" by (cases "nat (max n 1)") auto
    from auto_reset_trial_history_le[OF on, of j w ?t ?ms p]
    show "length (message_history (snd (evaluate ev w p n))) \<le> 3"
      unfolding ev evaluate_loop_records j by simp
  qed
  have b1: "\<not> auto_reset ev \<longrightarrow> reset_if_auto ev ?q = ?q"
    by (simp add: reset_if_auto_def)
  have b2: "(\<exists>parts response.
                  message_history (persona_at (Suc k) ev w t ms p) =
                    message_history ?q @ [user_msg parts, assistant_msg response])
              \<and> length (message_history (persona_at (Suc k) ev w t ms p)) =
                  length (message_history ?q) + 2"
    if off: "\<not> auto_reset ev" and ok: "fst (trial ev w t ms ?q) = Inr entry" for entry
  proof -
    from off have same: "reset_if_auto ev ?q = ?q" by (simp add: reset_if_auto_def)
    from trial_success_interact[OF ok] obtain response
      where "fst (interact w ?q (PList ms)) = Inr response" unfolding same by blast
    from interact_success_history[OF this] obtain parts
      where "message_history (snd (interact w ?q (PList ms))) =
               message_history ?q @ [user_msg parts, assistant_msg response]" by blast
    then have h: "message_history (persona_at (Suc k) ev w t ms p) =
               message_history ?q @ [user_msg parts, assistant_msg response]"
      by (simp add: snd_trial same)
    then show ?thesis by auto
  qed
  have b3: "\<not> auto_reset ev \<longrightarrow>
        length (message_history p) + 2 * length (fst (evaluate ev w p n))
            \<le> length (message_history (snd (evaluate ev w p n)))"
  proof
    assume off: "\<not> auto_reset ev"
    from no_reset_growth[OF off, of p w ?t ?ms "nat (max n 1)"]
    show "length (message_history p) + 2 * length (fst (evaluate ev w p n))
            \<le> length (message_history (snd (evaluate ev w p n)))"
      unfolding ev evaluate_loop_records by simp
  qed
  have c: "snd (evaluate ev w p n) =
       persona_at (nat (max n 1)) ev w (entry_template w p) (prepare_evaluation_messages w ev) p"
    unfolding ev evaluate_loop_records by simp
  have A: "auto_reset ev \<longrightarrow>
      message_history (reset_if_auto ev ?q)
        = [PDict [(''role'', PStr ''system''), (''content'', system_prompt p)]]
      \<and> length (message_history (reset_if_auto ev ?q)) = 1
      \<and> message_history (persona_at (Suc k) ev w t ms p) =
          (case process_messages w ?q ms [] of
             Inl e \<Rightarrow> [PDict [(''role'', PStr ''system''), (''content'', system_prompt p)]]
           | Inr parts \<Rightarrow>
               [PDict [(''role'', PStr ''system''), (''content'', system_prompt p)],
                user_msg parts]
                 @ (case fst (invoke (llm_client ?q) (client_state (llm_client ?q))
                                [PDict [(''role'', PStr ''system''),
                                        (''content'', system_prompt p)],
                                 user_msg parts]) of
                      Inl e \<Rightarrow> []
                    | Inr response \<Rightarrow> [assistant_msg response]))
      \<and> length (message_history (snd (evaluate ev w p n))) \<le> 3"
  proof
    assume on: "auto_reset ev"
    from a on have x1: "message_history (reset_if_auto ev ?q)
        = [PDict [(''role'', PStr ''system''), (''content'', system_prompt p)]]"
      and x2: "length (message_history (reset_if_auto ev ?q)) = 1" by simp_all
    note x3 = mp[OF a2 on] and x4 = mp[OF a3 on]
    show "message_history (reset_if_auto ev ?q)
        = [PDict [(''role'', PStr ''system''), (''content'', system_prompt p)]]
      \<and> length (message_history (reset_if_auto ev ?q)) = 1
      \<and> message_history (persona_at (Suc k) ev w t ms p) =
          (case process_messages w ?q ms [] of
             Inl e \<Rightarrow> [PDict [(''role'', PStr ''system''), (''content'', system_prompt p)]]
           | Inr parts \<Rightarrow>
               [PDict [(''role'', PStr ''system''), (''content'', system_prompt p)],
                user_msg parts]
                 @ (case fst (invoke (llm_client ?q) (client_state (llm_client ?q))
                                [PDict [(''role'', PStr ''system''),
                                        (''content'', system_prompt p)],
                                 user_msg parts]) of
                      Inl e \<Rightarrow> []
                    | Inr response \<Rightarrow> [assistant_msg response]))
      \<and> length (message_history (snd (evaluate ev w p n))) \<le> 3"
      by (rule conjI[OF x1 conjI[OF x2 conjI[OF x3 x4]]])
  qed
  from b1 b2 b3 have B: "\<not> auto_reset ev \<longrightarrow>
        reset_if_auto ev ?q = ?q
        \<and> (\<forall>entry. fst (trial ev w t ms ?q) = Inr entry \<longrightarrow>
              (\<exists>parts response.
                  message_history (persona_at (Suc k) ev w t ms p) =
                    message_history ?q @ [user_msg parts, assistant_msg response])
              \<and> length (message_history (persona_at (Suc k) ev w t ms p)) =
                  length (message_history ?q) + 2)
        \<and> length (message_history p) + 2 * length (fst (evaluate ev w p n))
            \<le> length (message_history (snd (evaluate ev w p n)))"
    by blast
  show ?thesis by (rule conjI[OF tie conjI[OF A conjI[OF B c]]])
qed

theorem auto_reset_history_length_witness:
  "message_history
      (persona_at 2 (evaluator_base ''Rate the app'' True) test_world []
         [PStr ''Rate the app''] (test_persona [] ''{\"q01\": 5}''))
     = [PDict [(''role'', PStr ''system''), (''content'', PStr ''You are Ana'')],
        PDict [(''role'', PStr ''user''),
               (''content'', PList [PDict [(''type'', PStr ''text''),
                                          (''text'', PStr ''Rate the app'')]])],
        PDict [(''role'', PStr ''assistant''), (''content'', PStr ''{\"q01\": 5}'')]]
   \<and> length (message_history (reset_if_auto (evaluator_base ''Rate the app'' True)
      (persona_at 2 (evaluator_base ''Rate the app'' True) test_world []
         [PStr ''Rate the app''] (test_persona [] ''{\"q01\": 5}'')))) = 1
   \<and> length (message_history (snd (evaluate (evaluator_base ''Rate the app'' True) test_world
        (test_persona [] ''{\"q01\": 5}'') 3))) \<le> 3
   \<and> fst (trial (evaluator_base ''Rate the app'' False) test_world [] [PStr ''Rate the app'']
        (persona_at 1 (evaluator_base ''Rate the app'' False) test_world []
           [PStr ''Rate the app''] (test_persona [] ''{\"q01\": 5}'')))
       = Inr [(''q01'', PInt 5)]
   \<and> length (message_history
        (persona_at 1 (evaluator_base ''Rate the app'' False) test_world []
           [PStr ''Rate the app''] (test_persona [] ''{\"q01\": 5}''))) = 3
   \<and> length (message_history
        (persona_at 2 (evaluator_base ''Rate the app'' False) test_world []
           [PStr ''Rate the app''] (test_persona [] ''{\"q01\": 5}''))) = 5
   \<and> 7 \<le> length (message_history (snd (evaluate (evaluator_base ''Rate the app'' False)
        test_world (test_persona [] ''{\"q01\": 5}'') 3)))"
proof -
  let ?on = "evaluator_base ''Rate the app'' True"
  let ?off = "evaluator_base ''Rate the app'' False"
  let ?ms = "[PStr ''Rate the app'']"
  let ?p = "test_persona [] ''{\"q01\": 5}''"
  let ?sys = "PDict [(''role'', PStr ''system''), (''content'', system_prompt ?p)]"
  have h1: "auto_reset ?on" by (simp add: evaluator_base_def)
  have h2: "\<not> auto_reset ?off" by (simp add: evaluator_base_def)
  have h3: "fst (trial ?off test_world [] ?ms (persona_at 1 ?off test_world [] ?ms ?p))
              = Inr [(''q01'', PInt 5)]"
    by code_simp
  have h4: "length (message_history (persona_at 1 ?off test_world [] ?ms ?p)) = 3"
    by code_simp
  have h5: "length (message_history ?p) = 1" by code_simp
  have h6: "length (fst (evaluate ?off test_world ?p 3)) = 3" by code_simp
  have rhs: "(case process_messages test_world (persona_at 1 ?on test_world [] ?ms ?p) ?ms [] of
             Inl e \<Rightarrow> [?sys]
           | Inr parts \<Rightarrow>
               [?sys, user_msg parts]
                 @ (case fst (invoke (llm_client (persona_at 1 ?on test_world [] ?ms ?p))
                                (client_state (llm_client (persona_at 1 ?on test_world [] ?ms ?p)))
                                [?sys, user_msg parts]) of
                      Inl e \<Rightarrow> []
                    | Inr response \<Rightarrow> [assistant_msg response]))
     = [PDict [(''role'', PStr ''system''), (''content'', PStr ''You are Ana'')],
        PDict [(''role'', PStr ''user''),
               (''content'', PList [PDict [(''type'', PStr ''text''),
                                          (''text'', PStr ''Rate the app'')]])],
        PDict [(''role'', PStr ''assistant''), (''content'', PStr ''{\"q01\": 5}'')]]"
    by code_simp
  note on = auto_reset_history_length[of 1 ?on test_world "[]" ?ms ?p 3,
              THEN conjunct2, THEN conjunct1, THEN mp, OF h1]
  note on2 = auto_reset_history_length[of 2 ?on test_world "[]" ?ms ?p 3,
              THEN conjunct2, THEN conjunct1, THEN mp, OF h1]
  note off = auto_reset_history_length[of 1 ?off test_world "[]" ?ms ?p 3,
              THEN conjunct2, THEN conjunct2, THEN conjunct1, THEN mp, OF h2]
  from on[THEN conjunct2, THEN conjunct2, THEN conjunct1] rhs
  have a: "message_history (persona_at 2 ?on test_world [] ?ms ?p)
     = [PDict [(''role'', PStr ''system''), (''content'', PStr ''You are Ana'')],
        PDict [(''role'', PStr ''user''),
               (''content'', PList [PDict [(''type'', PStr ''text''),
                                          (''text'', PStr ''Rate the app'')]])],
        PDict [(''role'', PStr ''assistant''), (''content'', PStr ''{\"q01\": 5}'')]]"
    by (simp only: numeral_2_eq_2 One_nat_def)
  from on2[THEN conjunct2, THEN conjunct1]
  have b: "length (message_history (reset_if_auto ?on (persona_at 2 ?on test_world [] ?ms ?p))) = 1" .
  from on[THEN conjunct2, THEN conjunct2, THEN conjunct2]
  have c: "length (message_history (snd (evaluate ?on test_world ?p 3))) \<le> 3" .
  from off[THEN conjunct2, THEN conjunct1, rule_format, OF h3, THEN conjunct2] h4
  have d: "length (message_history (persona_at 2 ?off test_world [] ?ms ?p)) = 5"
    by (simp add: numeral_2_eq_2 del: persona_at.simps)
  from off[THEN conjunct2, THEN conjunct2] h5 h6
  have e: "7 \<le> length (message_history (snd (evaluate ?off test_world ?p 3)))"
    by simp
  show ?thesis by (rule conjI[OF a conjI[OF b conjI[OF c conjI[OF h3 conjI[OF h4 conjI[OF d e]]]]]])
qed

lemma map_of_dict_update:
  "map_of (dict_update d other) key =
     (case map_of (rev other) key of Some v \<Rightarrow> Some v | None \<Rightarrow> map_of d key)"
proof (induction other arbitrary: d)
  case Nil
  then show ?case by (simp add: dict_update_def)
next
  case (Cons kv other)
  obtain k v where kv: "kv = (k, v)" by (cases kv)
  have "dict_update d (kv # other) = dict_update (AList.update k v d) other"
    by (simp add: dict_update_def kv)
  then show ?case
    using Cons.IH[of "AList.update k v d"]
    by (simp add: kv update_conv' map_add_def split: option.splits)
qed

lemma trial_success_steps:
  assumes "fst (trial ev w t ms q) = Inr entry"
  shows "\<exists>response cand parsed obj.
           fst (interact w (reset_if_auto ev q) (PList ms)) = Inr response
           \<and> extract_json response = Inr cand \<and> loads w cand = Inr (PDict parsed)
           \<and> preprocess_entry ev parsed = Inr obj \<and> entry = dict_update t obj"
  using assms by (auto simp: trial_def split: sum.splits prod.splits pyval.splits)

lemma evaluate_entry_trial:
  assumes "entry \<in> set (fst (evaluate ev w p n))"
  shows "\<exists>k. fst (trial ev w (entry_template w p) (prepare_evaluation_messages w ev)
                 (persona_at k ev w (entry_template w p) (prepare_evaluation_messages w ev) p))
              = Inr entry"
proof -
  from assms obtain k where
    "entry \<in> set (trial_records (fst (trial ev w (entry_template w p)
        (prepare_evaluation_messages w ev)
        (persona_at k ev w (entry_template w p) (prepare_evaluation_messages w ev) p))))"
    by (auto simp: evaluate_def evaluate_loop_records Let_def)
  then show ?thesis
    by (auto simp: trial_records_def split: sum.splits)
qed

text \<open>
  Claim C1, as amended. Every entry that \<open>evaluate\<close> returns comes from a trial whose
  answer was extracted, parsed and pre-processed into an object, and is the base record
  of timestamp, persona name and model label updated with that object: for every key,
  \<open>timestamp\<close>, \<open>persona_name\<close> and \<open>model\<close> included, the entry has the object's
  value when the object has the key, and the base record's value otherwise.
  (\<open>map_of (rev obj)\<close> looks a key up in the object; for a dictionary, whose keys are
  distinct, the order of the list does not matter.)
\<close>

theorem evaluate_entry_merge:
  "entry \<in> set (fst (evaluate ev w p n)) \<longrightarrow>
     (\<exists>k response cand parsed obj.
        fst (interact w
               (reset_if_auto ev
                  (persona_at k ev w (entry_template w p) (prepare_evaluation_messages w ev) p))
               (PList (prepare_evaluation_messages w ev))) = Inr response
        \<and> extract_json response = Inr cand \<and> loads w cand = Inr (PDict parsed)
        \<and> preprocess_entry ev parsed = Inr obj
        \<and> entry = dict_update (entry_template w p) obj
        \<and> (\<forall>key. map_of entry key =
              (case map_of (rev obj) key of
                 Some v \<Rightarrow> Some v
               | None \<Rightarrow> map_of (entry_template w p) key)))"
proof
  assume "entry \<in> set (fst (evaluate ev w p n))"
  from evaluate_entry_trial[OF this] obtain k where
    "fst (trial ev w (entry_template w p) (prepare_evaluation_messages w ev)
                 (persona_at k ev w (entry_template w p) (prepare_evaluation_messages w ev) p))
              = Inr entry" ..
  from trial_success_steps[OF this] obtain response cand parsed obj where
    f: "fst (interact w (reset_if_auto ev
            (persona_at k ev w (entry_template w p) (prepare_evaluation_messages w ev) p))
          (PList (prepare_evaluation_messages w ev))) = Inr response"
       "extract_json response = Inr cand" "loads w cand = Inr (PDict parsed)"
       "preprocess_entry ev parsed = Inr obj"
    and e: "entry = dict_update (entry_template w p) obj"
    by blast
  have "\<forall>key. map_of entry key =
              (case map_of (rev obj) key of
                 Some v \<Rightarrow> Some v
               | None \<Rightarrow> map_of (entry_template w p) key)"
    unfolding e by (simp add: map_of_dict_update)
  with f e show "\<exists>k response cand parsed obj.
        fst (interact w
               (reset_if_auto ev
                  (persona_at k ev w (entry_template w p) (prepare_evaluation_messages w ev) p))
               (PList (prepare_evaluation_messages w ev))) = Inr response
        \<and> extract_json response = Inr cand \<and> loads w cand = Inr (PDict parsed)
        \<and> preprocess_entry ev parsed = Inr obj
        \<and> entry = dict_update (entry_template w p) obj
        \<and> (\<forall>key. map_of entry key =
              (case map_of (rev obj) key of
                 Some v \<Rightarrow> Some v
               | None \<Rightarrow> map_of (entry_template w p) key))"
    by blast
qed

theorem evaluate_entry_merge_witness:
  "[(''timestamp'', PStr ''2025-01-01T00:00:00''), (''persona_name'', PStr ''Ana''),
    (''model'', PStr ''stub-model''), (''q01'', PInt 5)]
     \<in> set (fst (evaluate (evaluator_base ''Rate the app'' True) test_world
                   (test_persona [] ''{\"q01\": 5}'') 1))
   \<and> (\<exists>obj. [(''timestamp'', PStr ''2025-01-01T00:00:00''), (''persona_name'', PStr ''Ana''),
              (''model'', PStr ''stub-model''), (''q01'', PInt 5)]
             = dict_update (entry_template test_world (test_persona [] ''{\"q01\": 5}'')) obj)"
proof -
  let ?e = "[(''timestamp'', PStr ''2025-01-01T00:00:00''), (''persona_name'', PStr ''Ana''),
             (''model'', PStr ''stub-model''), (''q01'', PInt 5)]"
  let ?ev = "evaluator_base ''Rate the app'' True"
  let ?p = "test_persona [] ''{\"q01\": 5}''"
  have "fst (evaluate ?ev test_world ?p 1) = [?e]" by code_simp
  then have h: "?e \<in> set (fst (evaluate ?ev test_world ?p 1))" by simp
  from evaluate_entry_merge[of ?e ?ev test_world ?p 1, THEN mp, OF h]
  have "\<exists>obj. ?e = dict_update (entry_template test_world ?p) obj" by blast
  with h show ?thesis by blast
qed


text \<open>
  The claim as stated keeps the base record's timestamp and persona identity in every
  case. An answer whose object has the keys \<open>timestamp\<close>, \<open>persona_name\<close> and \<open>model\<close>
  replaces all three.
\<close>

theorem evaluate_entry_merge_counterexample:
  "fst (evaluate (evaluator_base ''Rate the app'' True) test_world
          (test_persona []
             ''{\"timestamp\": \"1999\", \"persona_name\": \"Mallory\", \"model\": \"other\", \"q01\": 5}'')
          1)
     = [[(''timestamp'', PStr ''1999''), (''persona_name'', PStr ''Mallory''),
         (''model'', PStr ''other''), (''q01'', PInt 5)]]
   \<and> entry_template test_world
        (test_persona []
           ''{\"timestamp\": \"1999\", \"persona_name\": \"Mallory\", \"model\": \"other\", \"q01\": 5}'')
     = [(''timestamp'', PStr ''2025-01-01T00:00:00''), (''persona_name'', PStr ''Ana''),
        (''model'', PStr ''stub-model'')]"
proof -
  have a: "fst (evaluate (evaluator_base ''Rate the app'' True) test_world
          (test_persona []
             ''{\"timestamp\": \"1999\", \"persona_name\": \"Mallory\", \"model\": \"other\", \"q01\": 5}'')
          1)
     = [[(''timestamp'', PStr ''1999''), (''persona_name'', PStr ''Mallory''),
         (''model'', PStr ''other''), (''q01'', PInt 5)]]"
    by code_simp
  have b: "entry_template test_world
        (test_persona []
           ''{\"timestamp\": \"1999\", \"persona_name\": \"Mallory\", \"model\": \"other\", \"q01\": 5}'')
     = [(''timestamp'', PStr ''2025-01-01T00:00:00''), (''persona_name'', PStr ''Ana''),
        (''model'', PStr ''stub-model'')]"
    by (simp add: entry_template_def fixture_eval)
  show ?thesis by (rule conjI[OF a b])
qed

end
